theory Spec2Isabelle
  imports Complex_Main
begin

section \<open>OpenMarch: the MarcherPage table and the canvas\<close>

text \<open>
  A shallow embedding of \<^verbatim>\<open>electron/database/tables/MarcherPageTable.ts\<close> and of the
  viewport, reconciliation, settings, selection and export code of
  \<^verbatim>\<open>src/global/classes/canvasObjects/OpenMarchCanvas.ts\<close>.

  JavaScript numbers that hold identifiers are integers (\<open>int\<close>); numbers that hold
  coordinates, scales and sensitivities are idealised as \<open>real\<close>: rounding, infinities
  and NaN are outside the model. Exceptions are values of a sum type and mutation is
  explicit state passing. Calls into code outside the two files (the generic database
  actions, the lookups of other tables, fabric's own export) are parameters of the
  functions that make them; where a claim depends on what fabric does on a call (it
  changes the active object and fires the selection events), that is modelled where it
  is used and said there. Each group of claims has the part of the canvas object it
  reads and writes as its state.
\<close>

subsection \<open>MarcherPageTable.ts\<close>

record MarcherPage =
  mp_id :: int
  marcher_id :: int
  page_id :: int
  mp_x :: real
  mp_y :: real

record 'a DatabaseResponse =
  success :: bool
  data :: 'a
  err :: "string option"

text \<open>
  A number or \<^verbatim>\<open>undefined\<close> used as a condition: \<^verbatim>\<open>undefined\<close> and \<open>0\<close> are falsy,
  every other integer is truthy.
\<close>

definition truthy :: "int option \<Rightarrow> bool" where
  "truthy a = (case a of None \<Rightarrow> False | Some n \<Rightarrow> n \<noteq> 0)"

text \<open>
  \<^verbatim>\<open>getMarcherPages\<close>: the table is the list of its rows; each prepared statement is the
  filter its WHERE clause denotes. The optional arguments are \<open>int option\<close>.
\<close>

definition getMarcherPages ::
  "MarcherPage list \<Rightarrow> int option \<Rightarrow> int option \<Rightarrow> MarcherPage list DatabaseResponse" where
  "getMarcherPages db a_marcher_id a_page_id =
     (let stmt =
        (if truthy a_marcher_id \<and> truthy a_page_id then
           filter (\<lambda>r. marcher_id r = the a_marcher_id \<and> page_id r = the a_page_id) db
         else if truthy a_marcher_id then
           filter (\<lambda>r. marcher_id r = the a_marcher_id) db
         else if truthy a_page_id then
           filter (\<lambda>r. page_id r = the a_page_id) db
         else db)
      in \<lparr>success = True, data = stmt, err = None\<rparr>)"

record ModifiedMarcherPageArgs =
  u_marcher_id :: int
  u_page_id :: int
  u_x :: real
  u_y :: real

record NewModifiedMarcherPageArgs = ModifiedMarcherPageArgs +
  u_id :: int

datatype js_error = TypeError string | Error string

text \<open>
  \<^verbatim>\<open>isLocked\<close>. The lookup \<^verbatim>\<open>getSpmByMarcherPage\<close> lives in ShapePageMarcherTable.ts,
  outside the two files, so it is the parameter \<open>getSpm\<close>: given a marcher id and a
  page id it answers with a response whose data is the ShapePageMarcher record, or
  \<^verbatim>\<open>null\<close> (\<open>None\<close>). A failed lookup is thrown on, wrapped by the catch block.
\<close>

definition isLocked ::
  "(int \<Rightarrow> int \<Rightarrow> 'spm option DatabaseResponse) \<Rightarrow> int \<Rightarrow> int \<Rightarrow> js_error + bool" where
  "isLocked getSpm marcherId pageId =
     (let response = getSpm marcherId pageId in
      if \<not> success response then
        Inl (Error (''Failed to check if MarcherPage is locked: Error: ''
               @ (case err response of
                    None \<Rightarrow> ''Failed to get SPM''
                  | Some m \<Rightarrow> if m = [] then ''Failed to get SPM'' else m)
               @ [CHR 0x0A]))
      else Inr (data response \<noteq> None))"

text \<open>
  The loop of \<^verbatim>\<open>updateMarcherPages\<close>. The id of the targeted row is read with
  \<^verbatim>\<open>.get(...).id\<close>: when no row has the update's marcher and page, \<^verbatim>\<open>.get\<close> answers
  \<^verbatim>\<open>undefined\<close> and reading \<^verbatim>\<open>.id\<close> throws a TypeError, which ends the call.
\<close>

fun collectUpdates ::
  "(int \<Rightarrow> int \<Rightarrow> 'spm option DatabaseResponse) \<Rightarrow> MarcherPage list \<Rightarrow> bool \<Rightarrow>
   ModifiedMarcherPageArgs list \<Rightarrow> NewModifiedMarcherPageArgs list \<Rightarrow>
   js_error + NewModifiedMarcherPageArgs list" where
  "collectUpdates getSpm db isChildAction [] newUpdatedItems = Inr newUpdatedItems"
| "collectUpdates getSpm db isChildAction (u # us) newUpdatedItems =
     (case find (\<lambda>r. marcher_id r = u_marcher_id u \<and> page_id r = u_page_id u) db of
        None \<Rightarrow> Inl (TypeError ''Cannot read properties of undefined (reading 'id')'')
      | Some row \<Rightarrow>
          (case (if \<not> isChildAction then isLocked getSpm (u_marcher_id u) (u_page_id u)
                 else Inr False) of
             Inl e \<Rightarrow> Inl e
           | Inr mpIsLocked \<Rightarrow>
               collectUpdates getSpm db isChildAction us
                 (if \<not> mpIsLocked
                  then newUpdatedItems @ [ModifiedMarcherPageArgs.extend u
                         (NewModifiedMarcherPageArgs.fields (mp_id row))]
                  else newUpdatedItems)))"

text \<open>
  \<^verbatim>\<open>updateMarcherPages\<close>. \<^verbatim>\<open>DbActions.updateItems\<close> is outside the two files: it is the
  parameter \<open>updateItems\<close>, given the table, the items, \<^verbatim>\<open>useNextUndoGroup\<close> and
  \<^verbatim>\<open>printHeaders\<close>.
\<close>

definition updateMarcherPages ::
  "(int \<Rightarrow> int \<Rightarrow> 'spm option DatabaseResponse) \<Rightarrow>
   (MarcherPage list \<Rightarrow> NewModifiedMarcherPageArgs list \<Rightarrow> bool \<Rightarrow> bool \<Rightarrow> 'r) \<Rightarrow>
   MarcherPage list \<Rightarrow> ModifiedMarcherPageArgs list \<Rightarrow> bool \<Rightarrow> js_error + 'r" where
  "updateMarcherPages getSpm updateItems db marcherPageUpdates isChildAction =
     (case collectUpdates getSpm db isChildAction marcherPageUpdates [] of
        Inl e \<Rightarrow> Inl e
      | Inr newUpdatedItems \<Rightarrow>
          Inr (updateItems db newUpdatedItems (\<not> isChildAction) (\<not> isChildAction)))"

text \<open>
  The vocabulary of the claim about locking: an update targets a row of the table; its
  MarcherPage is locked when the lookup finds a ShapePageMarcher record; the item handed
  to \<^verbatim>\<open>updateItems\<close> for an update is the update with the row's id.
\<close>

definition targets_row :: "MarcherPage list \<Rightarrow> ModifiedMarcherPageArgs \<Rightarrow> bool" where
  "targets_row db u =
     (find (\<lambda>r. marcher_id r = u_marcher_id u \<and> page_id r = u_page_id u) db \<noteq> None)"

definition lookup_ok ::
  "(int \<Rightarrow> int \<Rightarrow> 'spm option DatabaseResponse) \<Rightarrow> ModifiedMarcherPageArgs \<Rightarrow> bool" where
  "lookup_ok getSpm u = success (getSpm (u_marcher_id u) (u_page_id u))"

definition locked ::
  "(int \<Rightarrow> int \<Rightarrow> 'spm option DatabaseResponse) \<Rightarrow> ModifiedMarcherPageArgs \<Rightarrow> bool" where
  "locked getSpm u = (data (getSpm (u_marcher_id u) (u_page_id u)) \<noteq> None)"

definition item_of ::
  "MarcherPage list \<Rightarrow> ModifiedMarcherPageArgs \<Rightarrow> NewModifiedMarcherPageArgs" where
  "item_of db u =
     ModifiedMarcherPageArgs.extend u
       (NewModifiedMarcherPageArgs.fields
          (mp_id (the (find (\<lambda>r. marcher_id r = u_marcher_id u \<and> page_id r = u_page_id u) db))))"

text \<open>A table, a lookup and a batch used to exercise the update path.\<close>

definition example_table :: "MarcherPage list" where
  "example_table =
     [\<lparr>mp_id = 10, marcher_id = 1, page_id = 1, mp_x = 0, mp_y = 0\<rparr>,
      \<lparr>mp_id = 11, marcher_id = 2, page_id = 1, mp_x = 5, mp_y = 5\<rparr>]"

definition example_getSpm :: "int \<Rightarrow> int \<Rightarrow> unit option DatabaseResponse" where
  "example_getSpm m p =
     \<lparr>success = True, data = (if m = 1 \<and> p = 1 then Some () else None), err = None\<rparr>"

definition example_batch :: "ModifiedMarcherPageArgs list" where
  "example_batch =
     [\<lparr>u_marcher_id = 1, u_page_id = 1, u_x = 3, u_y = 4\<rparr>,
      \<lparr>u_marcher_id = 2, u_page_id = 1, u_x = 7, u_y = 8\<rparr>]"

text \<open>
  A batch whose first update targets the unlocked row of marcher 2 on page 1 and whose
  second update targets a marcher and page that have no row.
\<close>

definition example_batch_missing_row :: "ModifiedMarcherPageArgs list" where
  "example_batch_missing_row =
     [\<lparr>u_marcher_id = 2, u_page_id = 1, u_x = 7, u_y = 8\<rparr>,
      \<lparr>u_marcher_id = 9, u_page_id = 9, u_x = 1, u_y = 1\<rparr>]"

subsection \<open>OpenMarchCanvas.ts: the viewport\<close>

text \<open>
  The part of the canvas the zoom code reads and writes: \<^verbatim>\<open>transformValues\<close>, whether
  \<^verbatim>\<open>cssZoomWrapper\<close> is set and whether it has a parent element, and the messages
  handed to \<^verbatim>\<open>showZoomLimitFeedback\<close>, oldest first. CSS transitions, timers and the
  zoom-percentage widget are presentation and are left out.
\<close>

record Viewport =
  translateX :: real
  translateY :: real
  scale :: real
  originX :: real
  originY :: real
  cssZoomWrapper :: bool
  wrapperParent :: bool
  zoomLimitFeedback :: "string list"

definition MIN_ZOOM :: real where
  "MIN_ZOOM = 0.5"

definition MAX_ZOOM :: real where
  "MAX_ZOOM = 2.0"

definition initial_viewport :: "bool \<Rightarrow> bool \<Rightarrow> Viewport" where
  "initial_viewport wrapper parent =
     \<lparr>translateX = 0, translateY = 0, scale = 1, originX = 0, originY = 0,
      cssZoomWrapper = wrapper, wrapperParent = parent, zoomLimitFeedback = []\<rparr>"

definition showZoomLimitFeedback :: "string \<Rightarrow> Viewport \<Rightarrow> Viewport" where
  "showZoomLimitFeedback message v = v\<lparr>zoomLimitFeedback := zoomLimitFeedback v @ [message]\<rparr>"

text \<open>
  \<^verbatim>\<open>zoomContainer\<close>. \<open>rect_left\<close> and \<open>rect_top\<close> are the corner of the parent element's
  bounding rectangle, read from the DOM at the call.
\<close>

definition zoomContainer ::
  "real \<Rightarrow> real \<Rightarrow> real \<Rightarrow> real \<Rightarrow> real \<Rightarrow> Viewport \<Rightarrow> Viewport" where
  "zoomContainer rect_left rect_top factor clientX clientY v =
     (if \<not> cssZoomWrapper v \<or> \<not> wrapperParent v then v
      else
        let x = clientX - rect_left;
            y = clientY - rect_top;
            prevScale = scale v;
            dampedFactor = (if factor > 1 then 1 + (factor - 1) * 0.5
                            else 1 - (1 - factor) * 0.5);
            newScale = prevScale * dampedFactor;
            isAtMinZoom = (prevScale \<le> MIN_ZOOM \<and> factor < 1);
            isAtMaxZoom = (prevScale \<ge> MAX_ZOOM \<and> factor > 1)
        in if isAtMinZoom then showZoomLimitFeedback ''You've reached maximum zoom out'' v
           else if isAtMaxZoom then showZoomLimitFeedback ''You've reached maximum zoom in'' v
           else
             let newScale = max MIN_ZOOM (min MAX_ZOOM newScale) in
             if \<bar>newScale - prevScale\<bar> < 0.0001 then v
             else
               let scaleFactor = newScale / prevScale in
               v\<lparr>originX := x, originY := y,
                 translateX := x - (x - translateX v) * scaleFactor,
                 translateY := y - (y - translateY v) * scaleFactor,
                 scale := newScale\<rparr>)"

text \<open>
  \<^verbatim>\<open>fitToScreen\<close>, given the field's and the window's dimensions. The quotients are those
  of the source for a field of positive width and height.
\<close>

definition fitToScreen :: "real \<Rightarrow> real \<Rightarrow> real \<Rightarrow> real \<Rightarrow> Viewport \<Rightarrow> Viewport" where
  "fitToScreen fieldWidth fieldHeight viewportWidth viewportHeight v =
     (if \<not> cssZoomWrapper v then v
      else
        let margin = 40;
            scaleX = (viewportWidth - margin) / fieldWidth;
            scaleY = (viewportHeight - margin) / fieldHeight;
            scale0 = min scaleX scaleY * 0.8;
            scale1 = max MIN_ZOOM (min MAX_ZOOM scale0);
            centerFieldX = fieldWidth / 2;
            centerFieldY = fieldHeight / 2;
            centerViewportX = viewportWidth / 2;
            centerViewportY = viewportHeight / 2
        in v\<lparr>scale := scale1,
             translateX := centerViewportX - centerFieldX * scale1,
             translateY := centerViewportY - centerFieldY * scale1\<rparr>)"

definition resetZoom :: "Viewport \<Rightarrow> Viewport" where
  "resetZoom v = v\<lparr>scale := 1, translateX := 0, translateY := 0\<rparr>"

definition applyInertia :: "real \<Rightarrow> real" where
  "applyInertia delta =
     (let absDelta = \<bar>delta\<bar> in
      if absDelta < 3 then delta * 0.6
      else if absDelta < 10 then sgn delta * (absDelta * 0.5)
      else if absDelta < 30 then sgn delta * (absDelta * 0.4)
      else sgn delta * (absDelta * 0.3))"

definition panContainer :: "real \<Rightarrow> real \<Rightarrow> Viewport \<Rightarrow> Viewport" where
  "panContainer deltaX deltaY v =
     (if \<not> cssZoomWrapper v then v
      else v\<lparr>translateX := translateX v + applyInertia deltaX,
             translateY := translateY v + applyInertia deltaY\<rparr>)"

text \<open>
  The viewports a canvas can be in: the one the constructor leaves, and every one that
  the four operations writing \<^verbatim>\<open>transformValues\<close> produce from it.
\<close>

inductive reachable_viewport :: "Viewport \<Rightarrow> bool" where
  rv_initial: "reachable_viewport (initial_viewport wrapper parent)"
| rv_zoom: "reachable_viewport v \<Longrightarrow>
     reachable_viewport (zoomContainer rect_left rect_top factor clientX clientY v)"
| rv_fit: "reachable_viewport v \<Longrightarrow> 0 < fieldWidth \<Longrightarrow> 0 < fieldHeight \<Longrightarrow>
     reachable_viewport (fitToScreen fieldWidth fieldHeight viewportWidth viewportHeight v)"
| rv_reset: "reachable_viewport v \<Longrightarrow> reachable_viewport (resetZoom v)"
| rv_pan: "reachable_viewport v \<Longrightarrow> reachable_viewport (panContainer deltaX deltaY v)"

definition within_zoom_limits :: "Viewport \<Rightarrow> bool" where
  "within_zoom_limits v = (MIN_ZOOM \<le> scale v \<and> scale v \<le> MAX_ZOOM)"

text \<open>A viewport at the upper zoom limit, reached by fitting a small field.\<close>

definition example_viewport :: Viewport where
  "example_viewport = fitToScreen 100 100 1000 1000 (initial_viewport True True)"

subsection \<open>OpenMarchCanvas.ts: reconciling the marchers\<close>

record Marcher =
  m_id :: int
  m_section :: string

text \<open>
  Modelled from the spec: the class \<^verbatim>\<open>CanvasMarcher\<close> (CanvasMarcher.ts) is missing from the
  sources. A canvas-marcher is the visual proxy of a Marcher and its MarcherPage: it
  carries the marcher (\<^verbatim>\<open>marcherObj\<close>) and the position row whose coordinates it displays
  (\<^verbatim>\<open>marcherPage\<close>); its appearance is left out.
\<close>

record CanvasMarcher =
  marcherObj :: Marcher
  marcherPage :: MarcherPage

text \<open>
  Modelled from the spec: the constructor of \<^verbatim>\<open>CanvasMarcher\<close>, missing with the class. The
  new drawable stands for the given marcher at the given position row.
\<close>

definition new_CanvasMarcher :: "Marcher \<Rightarrow> MarcherPage \<Rightarrow> CanvasMarcher" where
  "new_CanvasMarcher marcher mp = \<lparr>marcherObj = marcher, marcherPage = mp\<rparr>"

text \<open>
  Modelled from the spec: \<^verbatim>\<open>CanvasMarcher.setMarcherCoords\<close>, missing with the class. It
  updates the displayed coordinates of the drawable in place from a position row; the
  marcher the drawable stands for stays.
\<close>

definition setMarcherCoords :: "CanvasMarcher \<Rightarrow> MarcherPage \<Rightarrow> CanvasMarcher" where
  "setMarcherCoords cm mp = cm\<lparr>marcherPage := mp\<rparr>"

definition cm_id :: "CanvasMarcher \<Rightarrow> int" where
  "cm_id cm = m_id (marcherObj cm)"

text \<open>
  The canvas is the list of its CanvasMarcher objects in drawing order
  (\<^verbatim>\<open>getCanvasMarchers()\<close>); an object is identified by its position in that list, which
  \<^verbatim>\<open>this.add\<close> leaves alone since it appends.

  \<^verbatim>\<open>canvasMarchersMap\<close> is built from the pairs (marcher id, object) in list order, so a
  later object with the same id replaces an earlier one: a key leads to the last object
  that has it. \<^verbatim>\<open>allMarchersMap\<close> is built the same way from the roster.
\<close>

definition canvasMarchersMap :: "CanvasMarcher list \<Rightarrow> int \<Rightarrow> nat option" where
  "canvasMarchersMap objs k =
     (case filter (\<lambda>i. cm_id (objs ! i) = k) (rev [0..<length objs]) of
        [] \<Rightarrow> None
      | i # _ \<Rightarrow> Some i)"

definition allMarchersMap :: "Marcher list \<Rightarrow> int \<Rightarrow> Marcher option" where
  "allMarchersMap allMarchers = map_of (rev (map (\<lambda>m. (m_id m, m)) allMarchers))"

text \<open>The keys of a Map built from a list, in insertion order (first occurrences).\<close>

definition map_keys :: "int list \<Rightarrow> int list" where
  "map_keys ks = rev (remdups (rev ks))"

text \<open>What a call did to the canvas, in order; \<open>NotFound\<close> is the logged, skipped row.\<close>

datatype render_op = Create int | Update int | Remove int | NotFound int

text \<open>The loop over \<^verbatim>\<open>currentMarcherPages\<close>, with the two maps taken before it.\<close>

fun render_rows ::
  "(int \<Rightarrow> nat option) \<Rightarrow> (int \<Rightarrow> Marcher option) \<Rightarrow> MarcherPage list \<Rightarrow>
   CanvasMarcher list \<times> render_op list \<Rightarrow> CanvasMarcher list \<times> render_op list" where
  "render_rows cmap amap [] st = st"
| "render_rows cmap amap (mp # mps) (objs, ops) =
     render_rows cmap amap mps
       (case cmap (marcher_id mp) of
          None \<Rightarrow>
            (case amap (marcher_id mp) of
               None \<Rightarrow> (objs, ops @ [NotFound (marcher_id mp)])
             | Some curMarcher \<Rightarrow>
                 (objs @ [new_CanvasMarcher curMarcher mp], ops @ [Create (marcher_id mp)]))
        | Some i \<Rightarrow>
            (objs[i := setMarcherCoords (objs ! i) mp], ops @ [Update (marcher_id mp)]))"

text \<open>
  The removal pass: every entry of \<^verbatim>\<open>canvasMarchersMap\<close> whose key is not among the ids
  of the rows has its object removed from the canvas.
\<close>

definition remove_absent ::
  "(int \<Rightarrow> nat option) \<Rightarrow> int list \<Rightarrow> CanvasMarcher list \<Rightarrow> CanvasMarcher list" where
  "remove_absent cmap ids objs =
     map snd (filter (\<lambda>(i, cm). \<not> (cmap (cm_id cm) = Some i \<and> cm_id cm \<notin> set ids))
                (enumerate 0 objs))"

text \<open>
  \<^verbatim>\<open>renderMarchers\<close>: the canvas after the call and what the call did. The removal pass
  runs only when the number of distinct row ids differs from the size of
  \<^verbatim>\<open>canvasMarchersMap\<close>. The function awaits the section appearances before it reads the
  canvas and runs to its end from there, so calls do not interleave. What follows the
  removal pass (the listeners' \<^verbatim>\<open>refreshMarchers\<close> hook, raising the control points, the
  repaint request) is taken not to add or remove CanvasMarcher objects.
\<close>

definition renderMarchers ::
  "CanvasMarcher list \<Rightarrow> MarcherPage list \<Rightarrow> Marcher list \<Rightarrow>
   CanvasMarcher list \<times> render_op list" where
  "renderMarchers canvas currentMarcherPages allMarchers =
     (let cmap = canvasMarchersMap canvas;
          amap = allMarchersMap allMarchers;
          (objs, ops) = render_rows cmap amap currentMarcherPages (canvas, []);
          marcherPageMarcherIds = map marcher_id currentMarcherPages;
          keys = map_keys (map cm_id canvas)
      in if length (remdups marcherPageMarcherIds) \<noteq> length keys
         then (remove_absent cmap marcherPageMarcherIds objs,
               ops @ map Remove (filter (\<lambda>k. k \<notin> set marcherPageMarcherIds) keys))
         else (objs, ops))"

definition canvas_ids :: "CanvasMarcher list \<Rightarrow> int set" where
  "canvas_ids canvas = set (map cm_id canvas)"

text \<open>
  The canvases reached from the empty one by calls of \<^verbatim>\<open>renderMarchers\<close> on rows of one
  page: a MarcherPage is unique per marcher and page, so the marcher ids of the rows are
  pairwise distinct; the rows and the roster are otherwise arbitrary.
\<close>

inductive reachable_canvas :: "CanvasMarcher list \<Rightarrow> bool" where
  rc_empty: "reachable_canvas []"
| rc_render: "reachable_canvas canvas \<Longrightarrow> distinct (map marcher_id currentMarcherPages) \<Longrightarrow>
     reachable_canvas (fst (renderMarchers canvas currentMarcherPages allMarchers))"

text \<open>Two marchers, a row for each, and a canvas that shows the first.\<close>

definition marcher1 :: Marcher where
  "marcher1 = \<lparr>m_id = 1, m_section = ''Trumpet''\<rparr>"

definition marcher2 :: Marcher where
  "marcher2 = \<lparr>m_id = 2, m_section = ''Snare''\<rparr>"

definition row1 :: MarcherPage where
  "row1 = \<lparr>mp_id = 10, marcher_id = 1, page_id = 1, mp_x = 0, mp_y = 0\<rparr>"

definition row2 :: MarcherPage where
  "row2 = \<lparr>mp_id = 11, marcher_id = 2, page_id = 1, mp_x = 5, mp_y = 5\<rparr>"

definition canvas1 :: "CanvasMarcher list" where
  "canvas1 = fst (renderMarchers [] [row1] [marcher1, marcher2])"

text \<open>The ids of the objects the loop creates: rows with no object yet and a marcher on the roster.\<close>

definition created_ids ::
  "CanvasMarcher list \<Rightarrow> MarcherPage list \<Rightarrow> Marcher list \<Rightarrow> int list" where
  "created_ids canvas rows roster =
     map marcher_id (filter (\<lambda>mp. canvasMarchersMap canvas (marcher_id mp) = None
                              \<and> allMarchersMap roster (marcher_id mp) \<noteq> None) rows)"

subsection \<open>OpenMarchCanvas.ts: settings, selection and export\<close>

text \<open>
  The settings. \<^verbatim>\<open>UiSettings\<close> is declared in the settings store, outside the two files:
  the record has the fields the canvas reads. A sensitivity read under
  \<^verbatim>\<open>if (uiSettings.mouseSettings.panSensitivity)\<close> may be missing (\<open>None\<close>) and is falsy
  when it is 0.
\<close>

record MouseSettings =
  trackpadMode :: bool
  panSensitivity :: "real option"
  trackpadPanSensitivity :: "real option"
  zoomSensitivity :: "real option"
  enableCanvasPanning :: bool

record UiSettings =
  gridLines :: bool
  halfLines :: bool
  lockX :: bool
  lockY :: bool
  mouseSettings :: MouseSettings

text \<open>
  The field grid object: which build it is (its identity) and the two flags it was built
  with. \<^verbatim>\<open>createFieldGrid\<close> draws from the field properties as well; the drawing is not
  needed to tell one grid object from another.
\<close>

record FieldGrid =
  build :: nat
  withGridLines :: bool
  withHalfLines :: bool
  objectCaching :: bool

text \<open>
  The part of the canvas \<^verbatim>\<open>setUiSettings\<close> and the sensitivity setters write.
  \<open>activeObjectLock\<close> is \<^verbatim>\<open>lockMovementX\<close> and \<^verbatim>\<open>lockMovementY\<close> of the active object, if
  there is one; \<open>gridBuilds\<close> counts the calls of \<^verbatim>\<open>createFieldGrid\<close>.
\<close>

record SettingsCanvas =
  uiSettings :: UiSettings
  trackpadModeEnabled :: bool
  canvasPanSensitivity :: real
  canvasTrackpadPanSensitivity :: real
  canvasZoomSensitivity :: real
  staticGridRef :: FieldGrid
  gridBuilds :: nat
  activeObjectLock :: "(bool \<times> bool) option"
  defaultCursor :: string
  moveCursor :: string

definition truthy_number :: "real option \<Rightarrow> bool" where
  "truthy_number a = (case a of None \<Rightarrow> False | Some r \<Rightarrow> r \<noteq> 0)"

definition renderFieldGrid :: "SettingsCanvas \<Rightarrow> SettingsCanvas" where
  "renderFieldGrid c =
     c\<lparr>staticGridRef :=
         \<lparr>build = Suc (gridBuilds c),
          withGridLines = gridLines (uiSettings c),
          withHalfLines = halfLines (uiSettings c),
          objectCaching = False\<rparr>,
       gridBuilds := Suc (gridBuilds c)\<rparr>"

definition setUiSettings :: "UiSettings \<Rightarrow> SettingsCanvas \<Rightarrow> SettingsCanvas" where
  "setUiSettings new c =
     (let oldUiSettings = uiSettings c;
          c = c\<lparr>uiSettings := new\<rparr>;
          c = (case activeObjectLock c of
                 None \<Rightarrow> c
               | Some _ \<Rightarrow> c\<lparr>activeObjectLock := Some (lockX new, lockY new)\<rparr>);
          c = (if trackpadModeEnabled c \<noteq> trackpadMode (mouseSettings new)
               then c\<lparr>trackpadModeEnabled := trackpadMode (mouseSettings new)\<rparr> else c);
          c = (if truthy_number (panSensitivity (mouseSettings new))
               then c\<lparr>canvasPanSensitivity := the (panSensitivity (mouseSettings new))\<rparr>
               else c);
          c = (if truthy_number (trackpadPanSensitivity (mouseSettings new))
               then c\<lparr>canvasTrackpadPanSensitivity :=
                        the (trackpadPanSensitivity (mouseSettings new))\<rparr>
               else c);
          c = (if truthy_number (zoomSensitivity (mouseSettings new))
               then c\<lparr>canvasZoomSensitivity := the (zoomSensitivity (mouseSettings new))\<rparr>
               else c);
          c = (if gridLines oldUiSettings \<noteq> gridLines new
                  \<or> halfLines oldUiSettings \<noteq> halfLines new
               then renderFieldGrid c else c)
      in if \<not> enableCanvasPanning (mouseSettings new)
         then c\<lparr>defaultCursor := ''default'', moveCursor := ''default''\<rparr>
         else c\<lparr>defaultCursor := ''grab'', moveCursor := ''grabbing''\<rparr>)"

definition setPanSensitivity :: "real \<Rightarrow> SettingsCanvas \<Rightarrow> SettingsCanvas" where
  "setPanSensitivity v c = c\<lparr>canvasPanSensitivity := max 0.1 (min 3.0 v)\<rparr>"

definition setTrackpadPanSensitivity :: "real \<Rightarrow> SettingsCanvas \<Rightarrow> SettingsCanvas" where
  "setTrackpadPanSensitivity v c = c\<lparr>canvasTrackpadPanSensitivity := max 0.1 (min 3.0 v)\<rparr>"

definition setZoomSensitivity :: "real \<Rightarrow> SettingsCanvas \<Rightarrow> SettingsCanvas" where
  "setZoomSensitivity v c = c\<lparr>canvasZoomSensitivity := max 0.01 (min 0.5 v)\<rparr>"

definition sensitivities_in_range :: "SettingsCanvas \<Rightarrow> bool" where
  "sensitivities_in_range c =
     (0.1 \<le> canvasPanSensitivity c \<and> canvasPanSensitivity c \<le> 3.0
      \<and> 0.1 \<le> canvasTrackpadPanSensitivity c \<and> canvasTrackpadPanSensitivity c \<le> 3.0
      \<and> 0.01 \<le> canvasZoomSensitivity c \<and> canvasZoomSensitivity c \<le> 0.5)"

text \<open>Settings and a canvas holding them, with the sensitivities the class starts with.\<close>

definition example_settings :: UiSettings where
  "example_settings =
     \<lparr>gridLines = True, halfLines = True, lockX = False, lockY = False,
      mouseSettings = \<lparr>trackpadMode = False, panSensitivity = Some 0.5,
        trackpadPanSensitivity = Some 0.5, zoomSensitivity = Some 0.03,
        enableCanvasPanning = True\<rparr>\<rparr>"

definition example_canvas :: SettingsCanvas where
  "example_canvas =
     \<lparr>uiSettings = example_settings, trackpadModeEnabled = False,
      canvasPanSensitivity = 0.5, canvasTrackpadPanSensitivity = 0.5,
      canvasZoomSensitivity = 0.03,
      staticGridRef = \<lparr>build = 1, withGridLines = True, withHalfLines = True,
                        objectCaching = False\<rparr>,
      gridBuilds = 1, activeObjectLock = None,
      defaultCursor = ''grab'', moveCursor = ''grabbing''\<rparr>"

text \<open>
  Selection. Selectable objects are named by numbers. fabric's \<^verbatim>\<open>setActiveObject\<close> and
  \<^verbatim>\<open>discardActiveObject\<close> change the active object and fire the selection events before
  they return; \<open>on_selection\<close> stands for the handlers the listeners registered for those
  events, which run inside the call. The movement locks that the canvas's own
  \<^verbatim>\<open>setActiveObject\<close> copies onto the object are not part of this state.
\<close>

datatype ActiveObject = Single nat | ActiveSelection "nat list"

record SelectionCanvas =
  handleSelectLock :: bool
  activeObject :: "ActiveObject option"
  renderRequests :: nat

definition setActiveObject ::
  "(SelectionCanvas \<Rightarrow> SelectionCanvas) \<Rightarrow> ActiveObject \<Rightarrow> SelectionCanvas \<Rightarrow> SelectionCanvas" where
  "setActiveObject on_selection obj c = on_selection (c\<lparr>activeObject := Some obj\<rparr>)"

definition discardActiveObject ::
  "(SelectionCanvas \<Rightarrow> SelectionCanvas) \<Rightarrow> SelectionCanvas \<Rightarrow> SelectionCanvas" where
  "discardActiveObject on_selection c = on_selection (c\<lparr>activeObject := None\<rparr>)"

definition requestRenderAll :: "SelectionCanvas \<Rightarrow> SelectionCanvas" where
  "requestRenderAll c = c\<lparr>renderRequests := Suc (renderRequests c)\<rparr>"

definition setActiveObjects ::
  "(SelectionCanvas \<Rightarrow> SelectionCanvas) \<Rightarrow> nat list \<Rightarrow> SelectionCanvas \<Rightarrow> SelectionCanvas" where
  "setActiveObjects on_selection newSelectedObjects c =
     (if handleSelectLock c then c
      else
        let c = c\<lparr>handleSelectLock := True\<rparr>;
            c = (if length newSelectedObjects = 1
                 then setActiveObject on_selection (Single (newSelectedObjects ! 0)) c
                 else if length newSelectedObjects > 1
                 then setActiveObject on_selection (ActiveSelection newSelectedObjects)
                        (discardActiveObject on_selection c)
                 else discardActiveObject on_selection c);
            c = requestRenderAll c
        in c\<lparr>handleSelectLock := False\<rparr>)"

text \<open>The selection a list of objects asks for: one object, a group, or none.\<close>

definition selection_of :: "nat list \<Rightarrow> ActiveObject option" where
  "selection_of objs =
     (if length objs = 1 then Some (Single (objs ! 0))
      else if length objs > 1 then Some (ActiveSelection objs)
      else None)"

text \<open>
  Export. \<open>super_toSVG\<close> is fabric's own \<^verbatim>\<open>toSVG\<close>, called on the resized canvas: it answers
  with the SVG text or throws, an \<^verbatim>\<open>Error\<close> with a message or some other value.
  \<^verbatim>\<open>toSVG\<close> gives the text or the message of the error it throws, and the canvas it leaves.
\<close>

datatype thrown = ErrorObject string | OtherValue

record ExportCanvas =
  viewportTransform :: "real list option"
  width :: real
  height :: real
  fieldWidth :: real
  fieldHeight :: real
  renderAllRequests :: nat

definition toSVG ::
  "(ExportCanvas \<Rightarrow> thrown + string) \<Rightarrow> ExportCanvas \<Rightarrow> (string + string) \<times> ExportCanvas" where
  "toSVG super_toSVG c =
     (let originalVPT = viewportTransform c;
          c = c\<lparr>viewportTransform := Some [1, 0, 0, 1, 0, 0]\<rparr>;
          originalWidth = width c;
          originalHeight = height c;
          c = c\<lparr>width := fieldWidth c, height := fieldHeight c\<rparr>;
          c = c\<lparr>renderAllRequests := Suc (renderAllRequests c)\<rparr>
      in case super_toSVG c of
           Inr svgString \<Rightarrow>
             (let c = (case originalVPT of
                         None \<Rightarrow> c
                       | Some vpt \<Rightarrow> c\<lparr>viewportTransform := Some vpt\<rparr>);
                  c = c\<lparr>width := (if originalWidth \<noteq> 0 then originalWidth else fieldWidth c),
                        height := (if originalHeight \<noteq> 0 then originalHeight
                                   else fieldHeight c)\<rparr>;
                  c = c\<lparr>renderAllRequests := Suc (renderAllRequests c)\<rparr>
              in (Inr svgString, c))
         | Inl e \<Rightarrow>
             (Inl (''Failed to export canvas to SVG: ''
                    @ (case e of ErrorObject m \<Rightarrow> m | OtherValue \<Rightarrow> ''Unknown error'')),
              c))"

text \<open>A zoomed and panned canvas of 800 by 600 over a field of 1600 by 900.\<close>

definition zoomed_canvas :: ExportCanvas where
  "zoomed_canvas =
     \<lparr>viewportTransform = Some [2, 0, 0, 2, 30, 40], width = 800, height = 600,
      fieldWidth = 1600, fieldHeight = 900, renderAllRequests = 0\<rparr>"

section \<open>Properties\<close>

subsection \<open>Claims about MarcherPageTable.ts\<close>

lemma truthy_simps [simp]:
  "truthy None = False" "truthy (Some n) = (n \<noteq> 0)"
  by (simp_all add: truthy_def)

text \<open>
  C10. \<^verbatim>\<open>getMarcherPages\<close> treats a filter id of 0 as absent: a call with
  \<open>marcher_id = 0\<close> (or \<open>page_id = 0\<close>) gives what the call without that argument gives,
  so with no other filter it returns every row of the table rather than the rows whose
  id is 0; the combined filter on both columns is applied exactly when both ids are
  nonzero.
\<close>

theorem getMarcherPages_zero_is_absent:
  "getMarcherPages db (Some 0) p = getMarcherPages db None p
   \<and> getMarcherPages db m (Some 0) = getMarcherPages db m None
   \<and> data (getMarcherPages db (Some 0) None) = db
   \<and> data (getMarcherPages db None (Some 0)) = db
   \<and> data (getMarcherPages db (Some 0) (Some 0)) = db
   \<and> data (getMarcherPages db (Some a) (Some b)) =
       (if a \<noteq> 0 \<and> b \<noteq> 0 then filter (\<lambda>r. marcher_id r = a \<and> page_id r = b) db
        else if a \<noteq> 0 then filter (\<lambda>r. marcher_id r = a) db
        else if b \<noteq> 0 then filter (\<lambda>r. page_id r = b) db
        else db)"
  by (simp add: getMarcherPages_def)

theorem getMarcherPages_zero_is_absent_witness:
  "data (getMarcherPages
      [\<lparr>mp_id = 1, marcher_id = 0, page_id = 3, mp_x = 0, mp_y = 0\<rparr>,
       \<lparr>mp_id = 2, marcher_id = 5, page_id = 3, mp_x = 1, mp_y = 1\<rparr>] (Some 0) None)
   = [\<lparr>mp_id = 1, marcher_id = 0, page_id = 3, mp_x = 0, mp_y = 0\<rparr>,
      \<lparr>mp_id = 2, marcher_id = 5, page_id = 3, mp_x = 1, mp_y = 1\<rparr>]"
  by (rule getMarcherPages_zero_is_absent
      [THEN conjunct2, THEN conjunct2, THEN conjunct1])

lemma collectUpdates_unlocked:
  "\<forall>u\<in>set us. targets_row db u \<and> lookup_ok getSpm u \<Longrightarrow>
   collectUpdates getSpm db False us acc =
     Inr (acc @ map (item_of db) (filter (\<lambda>u. \<not> locked getSpm u) us))"
proof (induction us arbitrary: acc)
  case Nil
  then show ?case by simp
next
  case (Cons u us)
  from Cons.prems have t: "targets_row db u" and l: "lookup_ok getSpm u"
    and rest: "\<forall>v\<in>set us. targets_row db v \<and> lookup_ok getSpm v"
    by simp_all
  from t obtain row where row:
    "find (\<lambda>r. marcher_id r = u_marcher_id u \<and> page_id r = u_page_id u) db = Some row"
    by (auto simp: targets_row_def)
  from l have lk: "isLocked getSpm (u_marcher_id u) (u_page_id u) = Inr (locked getSpm u)"
    by (simp add: isLocked_def lookup_ok_def locked_def Let_def)
  show ?case
    apply (simp only: collectUpdates.simps row option.case lk if_True not_False_eq_True
        simp_thms sum.case)
    apply (subst Cons.IH [OF rest])
    apply (simp add: item_of_def row)
    done
qed

text \<open>
  C5, as the code has it. The claim speaks of every batch. With \<^verbatim>\<open>isChildAction\<close> at its
  default \<open>False\<close>, for every batch in which each update targets a row of the table and
  each lock lookup succeeds, the items handed to \<^verbatim>\<open>DbActions.updateItems\<close> are exactly the
  updates whose MarcherPage is not locked, in order and with the row's id attached: an
  update of a locked MarcherPage (one with a ShapePageMarcher record for its marcher and
  page) is left out, an update of an unlocked one is passed on.
\<close>

theorem updateMarcherPages_rejects_locked:
  assumes "\<forall>u\<in>set updates. targets_row db u \<and> lookup_ok getSpm u"
  shows "\<exists>items.
     updateMarcherPages getSpm updateItems db updates False
       = Inr (updateItems db items True True)
     \<and> items = map (item_of db) (filter (\<lambda>u. \<not> locked getSpm u) updates)
     \<and> (\<forall>u\<in>set updates.
          (locked getSpm u \<longrightarrow> item_of db u \<notin> set items)
          \<and> (\<not> locked getSpm u \<longrightarrow> item_of db u \<in> set items))"
proof -
  let ?items = "map (item_of db) (filter (\<lambda>u. \<not> locked getSpm u) updates)"
  have run: "updateMarcherPages getSpm updateItems db updates False
       = Inr (updateItems db ?items True True)"
    by (simp add: updateMarcherPages_def collectUpdates_unlocked [OF assms])
  have same: "locked getSpm v = locked getSpm u" if "item_of db v = item_of db u" for u v
  proof -
    from that have "u_marcher_id (item_of db v) = u_marcher_id (item_of db u)"
      and "u_page_id (item_of db v) = u_page_id (item_of db u)" by simp_all
    then have "u_marcher_id v = u_marcher_id u" and "u_page_id v = u_page_id u"
      by (simp_all add: item_of_def ModifiedMarcherPageArgs.defs)
    then show ?thesis by (simp add: locked_def)
  qed
  have "\<forall>u\<in>set updates.
          (locked getSpm u \<longrightarrow> item_of db u \<notin> set ?items)
          \<and> (\<not> locked getSpm u \<longrightarrow> item_of db u \<in> set ?items)"
  proof (intro ballI conjI impI)
    fix u assume "u \<in> set updates" "locked getSpm u"
    show "item_of db u \<notin> set ?items"
    proof
      assume "item_of db u \<in> set ?items"
      then obtain v where "\<not> locked getSpm v" "item_of db v = item_of db u" by auto
      with same [of v u] \<open>locked getSpm u\<close> show False by simp
    qed
  next
    fix u assume "u \<in> set updates" "\<not> locked getSpm u"
    then show "item_of db u \<in> set ?items" by simp
  qed
  with run show ?thesis by blast
qed

theorem updateMarcherPages_rejects_locked_witness:
  "updateMarcherPages example_getSpm (\<lambda>db items useNextUndoGroup printHeaders. items)
     example_table example_batch False
   = Inr [\<lparr>u_marcher_id = 2, u_page_id = 1, u_x = 7, u_y = 8, u_id = 11\<rparr>]"
proof -
  have h: "\<forall>u\<in>set example_batch. targets_row example_table u \<and> lookup_ok example_getSpm u"
    by (simp add: example_batch_def example_table_def example_getSpm_def targets_row_def
        lookup_ok_def)
  from updateMarcherPages_rejects_locked
    [OF h, of "\<lambda>db items useNextUndoGroup printHeaders. items"]
  show ?thesis
    by (simp add: example_batch_def example_table_def example_getSpm_def locked_def
        item_of_def ModifiedMarcherPageArgs.defs NewModifiedMarcherPageArgs.defs)
qed

text \<open>
  The claim as stated fails on a batch with an update that targets no row: reading the id
  of the missing row throws before \<^verbatim>\<open>DbActions.updateItems\<close> is called, so the update of
  the unlocked row in the same batch is not applied.
\<close>

theorem updateMarcherPages_missing_row_counterexample:
  "targets_row example_table (example_batch_missing_row ! 0)
   \<and> \<not> locked example_getSpm (example_batch_missing_row ! 0)
   \<and> updateMarcherPages example_getSpm (\<lambda>db items useNextUndoGroup printHeaders. items)
        example_table example_batch_missing_row False
       = Inl (TypeError ''Cannot read properties of undefined (reading 'id')'')"
  by (simp add: updateMarcherPages_def example_batch_missing_row_def example_table_def
      example_getSpm_def targets_row_def locked_def isLocked_def Let_def)

subsection \<open>Claims about the viewport\<close>

lemma clamp_within: "MIN_ZOOM \<le> max MIN_ZOOM (min MAX_ZOOM s) \<and> max MIN_ZOOM (min MAX_ZOOM s) \<le> MAX_ZOOM"
  by (simp add: MIN_ZOOM_def MAX_ZOOM_def)

lemma zoomContainer_scale:
  "scale (zoomContainer l t f cx cy v) = scale v
   \<or> scale (zoomContainer l t f cx cy v)
        = max MIN_ZOOM (min MAX_ZOOM (scale v * (if f > 1 then 1 + (f - 1) * 0.5
                            else 1 - (1 - f) * 0.5)))"
  by (simp add: zoomContainer_def Let_def showZoomLimitFeedback_def)

lemma zoomContainer_within:
  "within_zoom_limits v \<Longrightarrow> within_zoom_limits (zoomContainer l t f cx cy v)"
  unfolding within_zoom_limits_def
  using zoomContainer_scale [of l t f cx cy v] clamp_within by metis

lemma if_chain_cases:
  "P a \<Longrightarrow> P b \<Longrightarrow> P c \<Longrightarrow> P d \<Longrightarrow> P e \<Longrightarrow>
   P (if c1 then a else if c2 then b else if c3 then c else if c4 then d else e)"
  by simp

lemma zoomContainer_cases:
  "zoomContainer l t f cx cy v = v
   \<or> (\<exists>m. zoomContainer l t f cx cy v = showZoomLimitFeedback m v)
   \<or> (\<exists>s'. zoomContainer l t f cx cy v =
         v\<lparr>originX := cx - l, originY := cy - t,
           translateX := (cx - l) - ((cx - l) - translateX v) * (s' / scale v),
           translateY := (cy - t) - ((cy - t) - translateY v) * (s' / scale v),
           scale := s'\<rparr>)"
  unfolding zoomContainer_def Let_def
  by (rule if_chain_cases [where P = "\<lambda>r. r = v
   \<or> (\<exists>m. r = showZoomLimitFeedback m v)
   \<or> (\<exists>s'. r =
         v\<lparr>originX := cx - l, originY := cy - t,
           translateX := (cx - l) - ((cx - l) - translateX v) * (s' / scale v),
           translateY := (cy - t) - ((cy - t) - translateY v) * (s' / scale v),
           scale := s'\<rparr>)"]) blast+

lemma fitToScreen_within:
  "within_zoom_limits v \<Longrightarrow> within_zoom_limits (fitToScreen fw fh vw vh v)"
  by (auto simp: within_zoom_limits_def fitToScreen_def Let_def MIN_ZOOM_def MAX_ZOOM_def)

lemma reachable_viewport_within:
  "reachable_viewport v \<Longrightarrow> within_zoom_limits v"
proof (induction rule: reachable_viewport.induct)
  case (rv_initial wrapper parent)
  show ?case
    by (simp add: within_zoom_limits_def initial_viewport_def MIN_ZOOM_def MAX_ZOOM_def)
next
  case (rv_zoom v rect_left rect_top factor clientX clientY)
  then show ?case by (simp add: zoomContainer_within)
next
  case (rv_fit v fieldWidth fieldHeight viewportWidth viewportHeight)
  then show ?case by (simp add: fitToScreen_within)
next
  case (rv_reset v)
  show ?case
    by (simp add: within_zoom_limits_def resetZoom_def MIN_ZOOM_def MAX_ZOOM_def)
next
  case (rv_pan v deltaX deltaY)
  then show ?case by (simp add: within_zoom_limits_def panContainer_def)
qed

lemma zoomContainer_at_limit:
  assumes "cssZoomWrapper v" "wrapperParent v"
    and "(scale v \<le> MIN_ZOOM \<and> f < 1) \<or> (MAX_ZOOM \<le> scale v \<and> 1 < f)"
  shows "zoomContainer l t f cx cy v =
     v\<lparr>zoomLimitFeedback := zoomLimitFeedback v @
        [if f < 1 then ''You've reached maximum zoom out''
         else ''You've reached maximum zoom in'']\<rparr>"
  using assms
  by (auto simp: zoomContainer_def Let_def showZoomLimitFeedback_def)

lemma zoomContainer_changed:
  assumes "scale (zoomContainer l t f cx cy v) \<noteq> scale v"
  shows "translateX (zoomContainer l t f cx cy v)
           = (cx - l) - ((cx - l) - translateX v) * (scale (zoomContainer l t f cx cy v) / scale v)
    \<and> translateY (zoomContainer l t f cx cy v)
           = (cy - t) - ((cy - t) - translateY v) * (scale (zoomContainer l t f cx cy v) / scale v)"
proof -
  from zoomContainer_cases [of l t f cx cy v] consider
    (same) "zoomContainer l t f cx cy v = v"
  | (feedback) m where "zoomContainer l t f cx cy v = showZoomLimitFeedback m v"
  | (zoomed) s' where "zoomContainer l t f cx cy v =
         v\<lparr>originX := cx - l, originY := cy - t,
           translateX := (cx - l) - ((cx - l) - translateX v) * (s' / scale v),
           translateY := (cy - t) - ((cy - t) - translateY v) * (s' / scale v),
           scale := s'\<rparr>"
    by blast
  then show ?thesis
  proof cases
    case same
    with assms show ?thesis by simp
  next
    case feedback
    with assms show ?thesis by (simp add: showZoomLimitFeedback_def)
  next
    case zoomed
    then show ?thesis by simp
  qed
qed

text \<open>
  C1. From every viewport the canvas can reach, a zoom request through
  \<^verbatim>\<open>zoomContainer\<close> and a \<^verbatim>\<open>fitToScreen\<close> call (on a field of positive size) leave the
  scale within \<open>[MIN_ZOOM, MAX_ZOOM] = [0.5, 2.0]\<close>. A zoom request that is applied
  (the zoom wrapper and its parent element exist) while the scale is at a bound and the
  factor pushes past it returns the viewport as it was, translation and scale included,
  with exactly one message appended to the limit feedback.
\<close>

theorem zoom_scale_within_limits:
  assumes "reachable_viewport v"
  shows "within_zoom_limits (zoomContainer l t f cx cy v)
    \<and> (0 < fw \<and> 0 < fh \<longrightarrow> within_zoom_limits (fitToScreen fw fh vw vh v))
    \<and> (cssZoomWrapper v \<and> wrapperParent v
         \<and> ((scale v \<le> MIN_ZOOM \<and> f < 1) \<or> (MAX_ZOOM \<le> scale v \<and> 1 < f))
       \<longrightarrow> zoomContainer l t f cx cy v =
            v\<lparr>zoomLimitFeedback := zoomLimitFeedback v @
               [if f < 1 then ''You've reached maximum zoom out''
                else ''You've reached maximum zoom in'']\<rparr>)"
proof -
  from assms have w: "within_zoom_limits v" by (rule reachable_viewport_within)
  show ?thesis
    using zoomContainer_within [OF w] fitToScreen_within [OF w] zoomContainer_at_limit
    by blast
qed

theorem zoom_scale_within_limits_witness:
  "within_zoom_limits (zoomContainer 0 0 1.25 400 300 example_viewport)
   \<and> within_zoom_limits (fitToScreen 1600 900 1280 720 example_viewport)
   \<and> zoomContainer 0 0 1.25 400 300 example_viewport =
       example_viewport\<lparr>zoomLimitFeedback := [''You've reached maximum zoom in'']\<rparr>"
proof -
  have r: "reachable_viewport example_viewport"
    unfolding example_viewport_def by (rule rv_fit [OF rv_initial]) simp_all
  have e: "example_viewport =
     \<lparr>translateX = 400, translateY = 400, scale = 2, originX = 0, originY = 0,
      cssZoomWrapper = True, wrapperParent = True, zoomLimitFeedback = []\<rparr>"
    by (simp add: example_viewport_def fitToScreen_def initial_viewport_def Let_def
        MIN_ZOOM_def MAX_ZOOM_def)
  note T = zoom_scale_within_limits [OF r, of 0 0 "1.25" 400 300 1600 900 1280 720]
  from T have a: "within_zoom_limits (zoomContainer 0 0 1.25 400 300 example_viewport)"
    by blast
  from T have b: "within_zoom_limits (fitToScreen 1600 900 1280 720 example_viewport)"
    by simp
  have p: "cssZoomWrapper example_viewport \<and> wrapperParent example_viewport
      \<and> ((scale example_viewport \<le> MIN_ZOOM \<and> (1.25::real) < 1)
          \<or> (MAX_ZOOM \<le> scale example_viewport \<and> (1::real) < 1.25))"
    by (simp add: e MAX_ZOOM_def)
  from T p have "zoomContainer 0 0 1.25 400 300 example_viewport =
      example_viewport\<lparr>zoomLimitFeedback := zoomLimitFeedback example_viewport @
        [if (1.25::real) < 1 then ''You've reached maximum zoom out''
         else ''You've reached maximum zoom in'']\<rparr>"
    by blast
  then have c: "zoomContainer 0 0 1.25 400 300 example_viewport =
      example_viewport\<lparr>zoomLimitFeedback := [''You've reached maximum zoom in'']\<rparr>"
    by (simp add: e)
  from a b c show ?thesis by blast
qed

text \<open>
  C4. A \<^verbatim>\<open>zoomContainer\<close> call that changes the scale from \<open>s\<close> to \<open>s'\<close>, both strictly
  inside the zoom limits, keeps the content-space coordinate under the anchor fixed: with
  the anchor \<open>a\<close> (the client point relative to the container) and the translation \<open>t\<close>,
  the new translation is \<open>t' = a - (a - t) * (s' / s)\<close>, so \<open>(a - t) / s = (a - t') / s'\<close>,
  on both axes.
\<close>

theorem zoom_anchor_fixed:
  assumes "scale (zoomContainer l t f cx cy v) \<noteq> scale v"
    and "MIN_ZOOM < scale v" "scale v < MAX_ZOOM"
    and "MIN_ZOOM < scale (zoomContainer l t f cx cy v)"
        "scale (zoomContainer l t f cx cy v) < MAX_ZOOM"
  shows "translateX (zoomContainer l t f cx cy v)
           = (cx - l) - ((cx - l) - translateX v) * (scale (zoomContainer l t f cx cy v) / scale v)
    \<and> translateY (zoomContainer l t f cx cy v)
           = (cy - t) - ((cy - t) - translateY v) * (scale (zoomContainer l t f cx cy v) / scale v)
    \<and> ((cx - l) - translateX v) / scale v
           = ((cx - l) - translateX (zoomContainer l t f cx cy v)) / scale (zoomContainer l t f cx cy v)
    \<and> ((cy - t) - translateY v) / scale v
           = ((cy - t) - translateY (zoomContainer l t f cx cy v)) / scale (zoomContainer l t f cx cy v)"
proof -
  let ?v' = "zoomContainer l t f cx cy v"
  have pos: "scale v \<noteq> 0" "scale ?v' \<noteq> 0"
    using assms(2,4) by (simp_all add: MIN_ZOOM_def)
  from zoomContainer_changed [OF assms(1)]
  have tx: "translateX ?v' = (cx - l) - ((cx - l) - translateX v) * (scale ?v' / scale v)"
    and ty: "translateY ?v' = (cy - t) - ((cy - t) - translateY v) * (scale ?v' / scale v)"
    by blast+
  have "((cx - l) - translateX ?v') / scale ?v'
      = (((cx - l) - translateX v) * (scale ?v' / scale v)) / scale ?v'"
    using tx by simp
  also have "\<dots> = ((cx - l) - translateX v) / scale v"
    using pos by simp
  finally have ax:
    "((cx - l) - translateX v) / scale v = ((cx - l) - translateX ?v') / scale ?v'"
    by simp
  have "((cy - t) - translateY ?v') / scale ?v'
      = (((cy - t) - translateY v) * (scale ?v' / scale v)) / scale ?v'"
    using ty by simp
  also have "\<dots> = ((cy - t) - translateY v) / scale v"
    using pos by simp
  finally have ay:
    "((cy - t) - translateY v) / scale v = ((cy - t) - translateY ?v') / scale ?v'"
    by simp
  from tx ty ax ay show ?thesis by blast
qed

theorem zoom_anchor_fixed_witness:
  "(400 - translateX (initial_viewport True True)) / scale (initial_viewport True True)
     = (400 - translateX (zoomContainer 0 0 1.25 400 300 (initial_viewport True True)))
        / scale (zoomContainer 0 0 1.25 400 300 (initial_viewport True True))
   \<and> scale (zoomContainer 0 0 1.25 400 300 (initial_viewport True True)) = 1.125
   \<and> translateX (zoomContainer 0 0 1.25 400 300 (initial_viewport True True)) = - 50"
proof -
  have z: "zoomContainer 0 0 1.25 400 300 (initial_viewport True True) =
     \<lparr>translateX = - 50, translateY = - 37.5, scale = 1.125, originX = 400, originY = 300,
      cssZoomWrapper = True, wrapperParent = True, zoomLimitFeedback = []\<rparr>"
    by (simp add: zoomContainer_def initial_viewport_def Let_def MIN_ZOOM_def MAX_ZOOM_def)
  have h1: "scale (zoomContainer 0 0 1.25 400 300 (initial_viewport True True))
      \<noteq> scale (initial_viewport True True)"
    unfolding z by (simp add: initial_viewport_def)
  have h2: "MIN_ZOOM < scale (initial_viewport True True)"
    and h3: "scale (initial_viewport True True) < MAX_ZOOM"
    by (simp_all add: initial_viewport_def MIN_ZOOM_def MAX_ZOOM_def)
  have h4: "MIN_ZOOM < scale (zoomContainer 0 0 1.25 400 300 (initial_viewport True True))"
    and h5: "scale (zoomContainer 0 0 1.25 400 300 (initial_viewport True True)) < MAX_ZOOM"
    unfolding z by (simp_all add: MIN_ZOOM_def MAX_ZOOM_def)
  from zoom_anchor_fixed [OF h1 h2 h3 h4 h5]
  have "(400 - 0 - translateX (initial_viewport True True)) / scale (initial_viewport True True)
     = (400 - 0 - translateX (zoomContainer 0 0 1.25 400 300 (initial_viewport True True)))
        / scale (zoomContainer 0 0 1.25 400 300 (initial_viewport True True))"
    by blast
  then have "(400 - translateX (initial_viewport True True)) / scale (initial_viewport True True)
     = (400 - translateX (zoomContainer 0 0 1.25 400 300 (initial_viewport True True)))
        / scale (zoomContainer 0 0 1.25 400 300 (initial_viewport True True))"
    by simp
  moreover have "scale (zoomContainer 0 0 1.25 400 300 (initial_viewport True True)) = 1.125"
    unfolding z by simp
  moreover have "translateX (zoomContainer 0 0 1.25 400 300 (initial_viewport True True)) = - 50"
    unfolding z by simp
  ultimately show ?thesis by blast
qed

subsection \<open>Claims about reconciling the marchers\<close>

text \<open>
  What a call does to the set of drawn ids. The loop keeps every drawn id and adds the ids
  of the rows that had no object and whose marcher is on the roster. When the removal pass
  is skipped that is the result (\<open>renderMarchers_ids_kept\<close>); when it runs on a canvas
  with pairwise distinct ids, the drawn ids that are not among the rows go
  (\<open>renderMarchers_ids_removed\<close>).
\<close>

lemma cm_id_setMarcherCoords [simp]: "cm_id (setMarcherCoords cm mp) = cm_id cm"
  by (simp add: cm_id_def setMarcherCoords_def)

lemma cm_id_new_CanvasMarcher [simp]: "cm_id (new_CanvasMarcher m mp) = m_id m"
  by (simp add: cm_id_def new_CanvasMarcher_def)

lemma allMarchersMap_Some: "allMarchersMap ms k = Some m \<Longrightarrow> m_id m = k"
  by (auto simp: allMarchersMap_def dest: map_of_SomeD)

lemma allMarchersMap_None: "allMarchersMap ms k = None \<longleftrightarrow> k \<notin> set (map m_id ms)"
  by (simp add: allMarchersMap_def map_of_eq_None_iff image_image)

lemma canvasMarchersMap_None:
  "canvasMarchersMap objs k = None \<longleftrightarrow> k \<notin> set (map cm_id objs)"
proof -
  have "canvasMarchersMap objs k = None
      \<longleftrightarrow> filter (\<lambda>i. cm_id (objs ! i) = k) (rev [0..<length objs]) = []"
    by (simp add: canvasMarchersMap_def split: list.splits)
  also have "\<dots> \<longleftrightarrow> (\<forall>i<length objs. cm_id (objs ! i) \<noteq> k)"
    by (auto simp: filter_empty_conv)
  also have "\<dots> \<longleftrightarrow> k \<notin> set (map cm_id objs)"
  proof
    assume a: "\<forall>i<length objs. cm_id (objs ! i) \<noteq> k"
    show "k \<notin> set (map cm_id objs)"
    proof
      assume "k \<in> set (map cm_id objs)"
      then obtain i where "i < length (map cm_id objs)" "map cm_id objs ! i = k"
        by (auto simp only: in_set_conv_nth)
      with a show False by simp
    qed
  next
    assume a: "k \<notin> set (map cm_id objs)"
    show "\<forall>i<length objs. cm_id (objs ! i) \<noteq> k"
    proof (intro allI impI)
      fix i assume "i < length objs"
      then have "map cm_id objs ! i \<in> set (map cm_id objs)"
        by (intro nth_mem) simp
      with a \<open>i < length objs\<close> show "cm_id (objs ! i) \<noteq> k" by auto
    qed
  qed
  finally show ?thesis .
qed

lemma canvasMarchersMap_Some:
  assumes "canvasMarchersMap objs k = Some i"
  shows "i < length objs \<and> cm_id (objs ! i) = k"
proof -
  from assms obtain js where
    "filter (\<lambda>i. cm_id (objs ! i) = k) (rev [0..<length objs]) = i # js"
    by (auto simp: canvasMarchersMap_def split: list.splits)
  then have "i \<in> set (filter (\<lambda>i. cm_id (objs ! i) = k) (rev [0..<length objs]))"
    by simp
  then show ?thesis by simp
qed

lemma canvasMarchersMap_distinct:
  assumes "distinct (map cm_id objs)" "i < length objs"
  shows "canvasMarchersMap objs (cm_id (objs ! i)) = Some i"
proof -
  have "cm_id (objs ! i) \<in> set (map cm_id objs)"
    using assms(2) by simp
  then have "canvasMarchersMap objs (cm_id (objs ! i)) \<noteq> None"
    by (simp add: canvasMarchersMap_None)
  then obtain j where j: "canvasMarchersMap objs (cm_id (objs ! i)) = Some j"
    by blast
  from canvasMarchersMap_Some [OF j]
  have "j < length objs" "cm_id (objs ! j) = cm_id (objs ! i)" by simp_all
  with assms have "j = i"
    using nth_eq_iff_index_eq [of "map cm_id objs" j i] by simp
  with j show ?thesis by simp
qed

text \<open>The ids on the canvas after the loop: those before it, then the created ones.\<close>

lemma render_rows_ids:
  assumes "\<And>k m. amap k = Some m \<Longrightarrow> m_id m = k"
  shows "map cm_id (fst (render_rows cmap amap mps (objs, ops)))
     = map cm_id objs
       @ map marcher_id (filter (\<lambda>mp. cmap (marcher_id mp) = None
                                    \<and> amap (marcher_id mp) \<noteq> None) mps)"
proof (induction mps arbitrary: objs ops)
  case Nil
  show ?case by simp
next
  case (Cons mp mps)
  show ?case
  proof (cases "cmap (marcher_id mp)")
    case cnone: None
    show ?thesis
    proof (cases "amap (marcher_id mp)")
      case None
      with cnone show ?thesis by (simp add: Cons.IH)
    next
      case (Some m)
      with assms have "m_id m = marcher_id mp" by simp
      with cnone Some show ?thesis by (simp add: Cons.IH)
    qed
  next
    case (Some i)
    have "map cm_id (objs[i := setMarcherCoords (objs ! i) mp]) = map cm_id objs"
      by (cases "i < length objs")
        (simp_all add: map_update list_update_same_conv list_update_beyond)
    with Some show ?thesis by (simp add: Cons.IH)
  qed
qed

lemma remove_absent_ids:
  "set (map cm_id (remove_absent cmap ids objs))
     = {k. \<exists>i<length objs. cm_id (objs ! i) = k \<and> \<not> (cmap k = Some i \<and> k \<notin> set ids)}"
  by (force simp: remove_absent_def in_set_enumerate_eq image_iff)

lemma remove_absent_distinct:
  assumes "distinct (map cm_id objs)"
  shows "distinct (map cm_id (remove_absent cmap ids objs))"
proof -
  have "map (cm_id \<circ> snd) (enumerate 0 objs) = map cm_id objs"
    by (simp flip: map_map)
  with assms have "distinct (map (cm_id \<circ> snd) (enumerate 0 objs))" by simp
  then show ?thesis
    by (simp add: remove_absent_def distinct_map_filter)
qed


lemma length_map_keys: "length (map_keys ks) = card (set ks)"
  using length_remdups_card_conv [of "rev ks"] by (simp add: map_keys_def)

lemma set_created_ids:
  "set (created_ids canvas rows roster)
     = (set (map marcher_id rows) \<inter> set (map m_id roster)) - canvas_ids canvas"
  by (auto simp: created_ids_def canvasMarchersMap_None allMarchersMap_None canvas_ids_def)

lemma render_rows_canvas:
  "map cm_id (fst (render_rows (canvasMarchersMap canvas) (allMarchersMap roster) rows
       (canvas, [])))
     = map cm_id canvas @ created_ids canvas rows roster"
  unfolding created_ids_def
  by (rule render_rows_ids) (rule allMarchersMap_Some)

lemma renderMarchers_fst:
  "fst (renderMarchers canvas rows roster) =
     (if card (set (map marcher_id rows)) \<noteq> card (canvas_ids canvas)
      then remove_absent (canvasMarchersMap canvas) (map marcher_id rows)
             (fst (render_rows (canvasMarchersMap canvas) (allMarchersMap roster) rows
                (canvas, [])))
      else fst (render_rows (canvasMarchersMap canvas) (allMarchersMap roster) rows
                (canvas, [])))"
  by (simp add: renderMarchers_def Let_def length_map_keys length_remdups_card_conv
      canvas_ids_def split: prod.splits)

lemma renderMarchers_ids_kept:
  assumes "card (set (map marcher_id rows)) = card (canvas_ids canvas)"
  shows "canvas_ids (fst (renderMarchers canvas rows roster))
     = canvas_ids canvas \<union> (set (map marcher_id rows) \<inter> set (map m_id roster))"
proof -
  have "fst (renderMarchers canvas rows roster)
      = fst (render_rows (canvasMarchersMap canvas) (allMarchersMap roster) rows (canvas, []))"
    using assms by (simp add: renderMarchers_fst)
  then have "canvas_ids (fst (renderMarchers canvas rows roster))
      = set (map cm_id canvas @ created_ids canvas rows roster)"
    by (simp only: canvas_ids_def render_rows_canvas)
  also have "\<dots> = canvas_ids canvas \<union> (set (map marcher_id rows) \<inter> set (map m_id roster))"
    by (auto simp: set_created_ids canvas_ids_def)
  finally show ?thesis .
qed

lemma renderMarchers_ids_removed:
  assumes d: "distinct (map cm_id canvas)"
    and c: "card (set (map marcher_id rows)) \<noteq> card (canvas_ids canvas)"
  shows "canvas_ids (fst (renderMarchers canvas rows roster))
     = set (map marcher_id rows) \<inter> (set (map m_id roster) \<union> canvas_ids canvas)"
proof -
  let ?P = "set (map marcher_id rows)"
  let ?R = "set (map m_id roster)"
  let ?cmap = "canvasMarchersMap canvas"
  let ?objs = "fst (render_rows ?cmap (allMarchersMap roster) rows (canvas, []))"
  let ?ids = "map cm_id canvas @ created_ids canvas rows roster"
  have ids: "map cm_id ?objs = ?ids" by (rule render_rows_canvas)
  then have len: "length ?objs = length ?ids" by (metis length_map)
  have nth: "cm_id (?objs ! i) = ?ids ! i" if "i < length ?objs" for i
    using that ids by (metis nth_map)
  have "fst (renderMarchers canvas rows roster)
      = remove_absent ?cmap (map marcher_id rows) ?objs"
    using c by (simp add: renderMarchers_fst)
  then have A: "canvas_ids (fst (renderMarchers canvas rows roster))
      = {k. \<exists>i<length ?objs. cm_id (?objs ! i) = k \<and> \<not> (?cmap k = Some i \<and> k \<notin> ?P)}"
    by (simp only: canvas_ids_def remove_absent_ids)
  show ?thesis
  proof (intro set_eqI iffI)
    fix k assume "k \<in> canvas_ids (fst (renderMarchers canvas rows roster))"
    with A obtain i where i: "i < length ?objs" "cm_id (?objs ! i) = k"
      and keep: "\<not> (?cmap k = Some i \<and> k \<notin> ?P)" by blast
    from i nth have ki: "?ids ! i = k" by simp
    from i len have il: "i < length ?ids" by simp
    have kin: "k \<in> set ?ids" using ki il by (metis nth_mem)
    have "k \<in> ?P"
    proof (rule ccontr)
      assume notP: "k \<notin> ?P"
      show False
      proof (cases "i < length canvas")
        case True
        then have "k = cm_id (canvas ! i)" using ki by (simp add: nth_append)
        with canvasMarchersMap_distinct [OF d True] have "?cmap k = Some i" by simp
        with keep notP show False by simp
      next
        case False
        then have "k = created_ids canvas rows roster ! (i - length canvas)"
          using ki by (simp add: nth_append)
        moreover have "i - length canvas < length (created_ids canvas rows roster)"
          using False il by simp
        ultimately have "k \<in> set (created_ids canvas rows roster)"
          by (metis nth_mem)
        with notP show False by (simp add: set_created_ids)
      qed
    qed
    moreover from kin have "k \<in> canvas_ids canvas \<union> ?R"
      by (auto simp: set_created_ids canvas_ids_def)
    ultimately show "k \<in> ?P \<inter> (?R \<union> canvas_ids canvas)" by blast
  next
    fix k assume k: "k \<in> ?P \<inter> (?R \<union> canvas_ids canvas)"
    then have "k \<in> set ?ids"
      by (auto simp: set_created_ids canvas_ids_def)
    then obtain i where "i < length ?ids" "?ids ! i = k"
      by (auto simp only: in_set_conv_nth)
    with len nth have "i < length ?objs" "cm_id (?objs ! i) = k" by simp_all
    moreover from k have "\<not> (?cmap k = Some i \<and> k \<notin> ?P)" by simp
    ultimately show "k \<in> canvas_ids (fst (renderMarchers canvas rows roster))"
      using A by blast
  qed
qed

lemma renderMarchers_distinct:
  assumes d: "distinct (map cm_id canvas)" and r: "distinct (map marcher_id rows)"
  shows "distinct (map cm_id (fst (renderMarchers canvas rows roster)))"
proof -
  let ?objs = "fst (render_rows (canvasMarchersMap canvas) (allMarchersMap roster) rows
                (canvas, []))"
  have "distinct (created_ids canvas rows roster)"
    unfolding created_ids_def using r by (rule distinct_map_filter)
  moreover have "set (map cm_id canvas) \<inter> set (created_ids canvas rows roster) = {}"
    by (auto simp: set_created_ids canvas_ids_def)
  ultimately have "distinct (map cm_id ?objs)"
    using d by (simp add: render_rows_canvas)
  then show ?thesis
    by (cases "card (set (map marcher_id rows)) = card (canvas_ids canvas)")
      (simp_all add: renderMarchers_fst remove_absent_distinct)
qed

lemma reachable_canvas_distinct:
  "reachable_canvas canvas \<Longrightarrow> distinct (map cm_id canvas)"
  by (induction rule: reachable_canvas.induct) (simp_all add: renderMarchers_distinct)

text \<open>
  C2. The claim says that after every call the drawn marcher ids are exactly the marcher
  ids of the rows, with no extras. On the canvas that shows marcher 1, reached from the
  empty canvas by one call, a call with the single row of marcher 2, whose marcher is on
  the roster, draws marcher 2 and leaves marcher 1 drawn: the rows hold one id and the
  canvas held one id, so the removal pass is skipped, though the two ids differ.
\<close>

theorem renderMarchers_keeps_stale_drawable:
  "reachable_canvas canvas1
   \<and> canvas_ids canvas1 = {1}
   \<and> set (map marcher_id [row2]) = {2}
   \<and> marcher_id row2 \<in> set (map m_id [marcher1, marcher2])
   \<and> canvas_ids (fst (renderMarchers canvas1 [row2] [marcher1, marcher2])) = {1, 2}"
proof -
  have "reachable_canvas canvas1"
    unfolding canvas1_def by (intro rc_render rc_empty) simp
  moreover have "canvas_ids canvas1 = {1}"
    by code_simp
  moreover have "set (map marcher_id [row2]) = {2}"
    by code_simp
  moreover have "marcher_id row2 \<in> set (map m_id [marcher1, marcher2])"
    by code_simp
  moreover have "canvas_ids (fst (renderMarchers canvas1 [row2] [marcher1, marcher2])) = {1, 2}"
    by code_simp
  ultimately show ?thesis by blast
qed

text \<open>
  C3. The claim says that a second call with the input of the call before it creates,
  updates and removes nothing. On a canvas showing marcher 1, a call with the single row
  of marcher 2 creates the object of marcher 2 and removes nothing, since one row id and
  one drawn id are the same number; the same call again finds one row id against two drawn
  ids and removes the object of marcher 1.
\<close>

theorem renderMarchers_second_call_removes:
  "canvas1 = [\<lparr>marcherObj = marcher1, marcherPage = row1\<rparr>]
   \<and> renderMarchers canvas1 [row2] [marcher1, marcher2]
       = ([\<lparr>marcherObj = marcher1, marcherPage = row1\<rparr>,
           \<lparr>marcherObj = marcher2, marcherPage = row2\<rparr>], [Create 2])
   \<and> renderMarchers [\<lparr>marcherObj = marcher1, marcherPage = row1\<rparr>,
                       \<lparr>marcherObj = marcher2, marcherPage = row2\<rparr>] [row2] [marcher1, marcher2]
       = ([\<lparr>marcherObj = marcher2, marcherPage = row2\<rparr>], [Update 2, Remove 1])"
  by code_simp

subsection \<open>Claims about settings, selection and export\<close>

lemma setUiSettings_grid:
  "gridBuilds (setUiSettings new c) =
     (if gridLines (uiSettings c) \<noteq> gridLines new \<or> halfLines (uiSettings c) \<noteq> halfLines new
      then Suc (gridBuilds c) else gridBuilds c)
   \<and> staticGridRef (setUiSettings new c) =
     (if gridLines (uiSettings c) \<noteq> gridLines new \<or> halfLines (uiSettings c) \<noteq> halfLines new
      then \<lparr>build = Suc (gridBuilds c), withGridLines = gridLines new,
            withHalfLines = halfLines new, objectCaching = False\<rparr>
      else staticGridRef c)"
  by (simp add: setUiSettings_def renderFieldGrid_def Let_def split: option.splits)

text \<open>
  C7. \<^verbatim>\<open>setUiSettings\<close> rebuilds the field grid, through \<^verbatim>\<open>renderFieldGrid\<close>, which puts a
  new grid object in \<^verbatim>\<open>staticGridRef\<close>, if and only if the \<^verbatim>\<open>gridLines\<close> or the \<^verbatim>\<open>halfLines\<close>
  flag of the new settings differs from that of the settings before: one build when a flag
  differs, none and the same grid object when both agree. So switching \<^verbatim>\<open>halfLines\<close> from
  true to false builds once, and changing only a sensitivity builds nothing.
\<close>

theorem setUiSettings_rebuilds_grid_iff:
  "(gridBuilds (setUiSettings new c) = Suc (gridBuilds c)
      \<longleftrightarrow> gridLines new \<noteq> gridLines (uiSettings c) \<or> halfLines new \<noteq> halfLines (uiSettings c))
   \<and> (gridBuilds (setUiSettings new c) = gridBuilds c
      \<longleftrightarrow> gridLines new = gridLines (uiSettings c) \<and> halfLines new = halfLines (uiSettings c))
   \<and> (gridLines new = gridLines (uiSettings c) \<and> halfLines new = halfLines (uiSettings c)
      \<longrightarrow> staticGridRef (setUiSettings new c) = staticGridRef c)
   \<and> (gridLines new \<noteq> gridLines (uiSettings c) \<or> halfLines new \<noteq> halfLines (uiSettings c)
      \<longrightarrow> staticGridRef (setUiSettings new c) =
            \<lparr>build = Suc (gridBuilds c), withGridLines = gridLines new,
             withHalfLines = halfLines new, objectCaching = False\<rparr>)"
  using setUiSettings_grid [of new c] by auto

theorem setUiSettings_rebuilds_grid_iff_witness:
  "gridBuilds (setUiSettings (example_settings\<lparr>halfLines := False\<rparr>) example_canvas)
     = Suc (gridBuilds example_canvas)
   \<and> gridBuilds (setUiSettings
        (example_settings\<lparr>mouseSettings :=
           (mouseSettings example_settings)\<lparr>panSensitivity := Some 0.8\<rparr>\<rparr>) example_canvas)
     = gridBuilds example_canvas
   \<and> staticGridRef (setUiSettings
        (example_settings\<lparr>mouseSettings :=
           (mouseSettings example_settings)\<lparr>panSensitivity := Some 0.8\<rparr>\<rparr>) example_canvas)
     = staticGridRef example_canvas"
proof -
  have a: "halfLines (example_settings\<lparr>halfLines := False\<rparr>)
      \<noteq> halfLines (uiSettings example_canvas)"
    by (simp add: example_settings_def example_canvas_def)
  let ?s = "example_settings\<lparr>mouseSettings :=
           (mouseSettings example_settings)\<lparr>panSensitivity := Some 0.8\<rparr>\<rparr>"
  have b: "gridLines ?s = gridLines (uiSettings example_canvas)
      \<and> halfLines ?s = halfLines (uiSettings example_canvas)"
    by (simp add: example_canvas_def)
  from setUiSettings_rebuilds_grid_iff [of "example_settings\<lparr>halfLines := False\<rparr>" example_canvas] a
  have 1: "gridBuilds (setUiSettings (example_settings\<lparr>halfLines := False\<rparr>) example_canvas)
     = Suc (gridBuilds example_canvas)" by blast
  from setUiSettings_rebuilds_grid_iff [of ?s example_canvas] b
  have 2: "gridBuilds (setUiSettings ?s example_canvas) = gridBuilds example_canvas"
    and 3: "staticGridRef (setUiSettings ?s example_canvas) = staticGridRef example_canvas"
    by blast+
  from 1 2 3 show ?thesis by blast
qed

lemma setters_clamp:
  "sensitivities_in_range c \<Longrightarrow>
   sensitivities_in_range (setPanSensitivity v c)
   \<and> sensitivities_in_range (setTrackpadPanSensitivity v c)
   \<and> sensitivities_in_range (setZoomSensitivity v c)"
  by (simp add: sensitivities_in_range_def setPanSensitivity_def setTrackpadPanSensitivity_def
      setZoomSensitivity_def)

text \<open>
  C9. The claim says that every operation updating a sensitivity leaves it in its range,
  \<open>[0.1, 3.0]\<close> for the two pan sensitivities and \<open>[0.01, 0.5]\<close> for the zoom sensitivity,
  also after \<^verbatim>\<open>setUiSettings\<close>, whatever the settings hold. The dedicated setters clamp;
  \<^verbatim>\<open>setUiSettings\<close> copies the value as it is: from a canvas with all three in range,
  settings with a pan sensitivity of 10 leave the pan sensitivity at 10, where
  \<^verbatim>\<open>setPanSensitivity\<close> stores 3.
\<close>

theorem setUiSettings_copies_unclamped:
  "sensitivities_in_range example_canvas
   \<and> canvasPanSensitivity (setUiSettings
        (example_settings\<lparr>mouseSettings :=
           (mouseSettings example_settings)\<lparr>panSensitivity := Some 10\<rparr>\<rparr>) example_canvas) = 10
   \<and> \<not> sensitivities_in_range (setUiSettings
        (example_settings\<lparr>mouseSettings :=
           (mouseSettings example_settings)\<lparr>panSensitivity := Some 10\<rparr>\<rparr>) example_canvas)
   \<and> canvasPanSensitivity (setPanSensitivity 10 example_canvas) = 3"
  by (simp add: sensitivities_in_range_def setUiSettings_def setPanSensitivity_def Let_def
      example_settings_def example_canvas_def truthy_number_def)

theorem setUiSettings_copies_unclamped_witness:
  "canvasPanSensitivity (setUiSettings
        (example_settings\<lparr>mouseSettings :=
           (mouseSettings example_settings)\<lparr>panSensitivity := Some 10\<rparr>\<rparr>) example_canvas) = 10"
  using setUiSettings_copies_unclamped by blast

lemma setActiveObjects_locked:
  "handleSelectLock c \<Longrightarrow> setActiveObjects h objs c = c"
  by (simp add: setActiveObjects_def)

lemma setActiveObjects_reentrant:
  assumes "\<not> handleSelectLock c"
  shows "setActiveObjects (setActiveObjects h other) objs c
     = c\<lparr>activeObject := selection_of objs, renderRequests := Suc (renderRequests c)\<rparr>"
proof -
  have noop: "setActiveObjects h other s = s" if "handleSelectLock s" for s
    using that by (rule setActiveObjects_locked)
  from assms have "c\<lparr>handleSelectLock := False\<rparr> = c" by simp
  show ?thesis
    using assms
    by (simp add: setActiveObjects_def [of "setActiveObjects h other"] Let_def
        setActiveObject_def discardActiveObject_def requestRenderAll_def noop selection_of_def)
qed

text \<open>
  C8. Called while \<^verbatim>\<open>handleSelectLock\<close> is set, \<^verbatim>\<open>setActiveObjects\<close> returns at once and
  the canvas is as it was. A top-level call sets the lock before it changes the selection
  and releases it before it returns: a selection handler that calls \<^verbatim>\<open>setActiveObjects\<close>
  again, from inside the selection change, does nothing, so the selection ends as the one
  the top-level call asked for (one object selected directly, several as a group, none
  cleared), after one render request and with the lock released.
\<close>

theorem setActiveObjects_lock:
  "(handleSelectLock c \<longrightarrow> setActiveObjects h objs c = c)
   \<and> (\<not> handleSelectLock c \<longrightarrow>
        setActiveObjects (setActiveObjects h other) objs c
          = c\<lparr>activeObject := selection_of objs, renderRequests := Suc (renderRequests c)\<rparr>
        \<and> activeObject (setActiveObjects (setActiveObjects h other) objs c) = selection_of objs
        \<and> \<not> handleSelectLock (setActiveObjects (setActiveObjects h other) objs c))"
  using setActiveObjects_locked [of c h objs] setActiveObjects_reentrant [of c h other objs]
  by simp

theorem setActiveObjects_lock_witness:
  "setActiveObjects (setActiveObjects id [7]) [3, 4]
      \<lparr>handleSelectLock = False, activeObject = None, renderRequests = 0\<rparr>
     = \<lparr>handleSelectLock = False, activeObject = Some (ActiveSelection [3, 4]),
        renderRequests = 1\<rparr>
   \<and> setActiveObjects id [7]
      \<lparr>handleSelectLock = True, activeObject = Some (Single 3), renderRequests = 0\<rparr>
     = \<lparr>handleSelectLock = True, activeObject = Some (Single 3), renderRequests = 0\<rparr>"
proof -
  let ?c = "\<lparr>handleSelectLock = False, activeObject = None, renderRequests = 0\<rparr>"
  let ?d = "\<lparr>handleSelectLock = True, activeObject = Some (Single 3), renderRequests = 0\<rparr>"
  from setActiveObjects_lock [of ?c id "[3, 4]" "[7]"]
  have "setActiveObjects (setActiveObjects id [7]) [3, 4] ?c
      = ?c\<lparr>activeObject := selection_of [3, 4], renderRequests := Suc (renderRequests ?c)\<rparr>"
    by simp
  then have 1: "setActiveObjects (setActiveObjects id [7]) [3, 4] ?c
      = \<lparr>handleSelectLock = False, activeObject = Some (ActiveSelection [3, 4]),
         renderRequests = 1\<rparr>"
    by (simp add: selection_of_def)
  from setActiveObjects_lock [of ?d id "[7]" "[]"]
  have 2: "setActiveObjects id [7] ?d = ?d" by simp
  from 1 2 show ?thesis by blast
qed

text \<open>
  C6. The claim says that \<^verbatim>\<open>toSVG\<close> restores the viewport transform and the canvas width
  and height on every path, also before a failure reaches the caller. When fabric's
  \<^verbatim>\<open>toSVG\<close> throws, the catch block only wraps the error: the canvas keeps the identity
  transform and the field's dimensions set for the export. On success the transform and
  the dimensions are put back.
\<close>

theorem toSVG_failure_leaves_export_state:
  "toSVG (\<lambda>c. Inl (ErrorObject ''boom'')) zoomed_canvas
     = (Inl ''Failed to export canvas to SVG: boom'',
        \<lparr>viewportTransform = Some [1, 0, 0, 1, 0, 0], width = 1600, height = 900,
         fieldWidth = 1600, fieldHeight = 900, renderAllRequests = 1\<rparr>)
   \<and> snd (toSVG (\<lambda>c. Inr ''<svg/>'') zoomed_canvas)
     = zoomed_canvas\<lparr>renderAllRequests := 2\<rparr>"
  by (simp add: toSVG_def zoomed_canvas_def Let_def)

end
